theory Spec2Isabelle
  imports Main "HOL-Library.Char_ord" "HOL-Library.List_Lexorder"
begin

section \<open>Python string primitives used by \<open>khmer/_version.py\<close>\<close>

text \<open>
  Strings are lists of 8-bit characters: a Python 2 \<open>str\<close> as it is, and a Python 3
  \<open>str\<close> by its UTF-8 encoding (the file is written for both). On such characters
  \<open>\d\<close> is \<open>[0-9]\<close> and the white space of \<open>strip()\<close> and \<open>\s\<close> is
  \<open>string.whitespace\<close>.
\<close>

definition isdigit :: "char \<Rightarrow> bool" where
  "isdigit c = (c \<in> set ''0123456789'')"

definition ishex :: "char \<Rightarrow> bool" where
  "ishex c = (c \<in> set ''0123456789abcdef'')"

definition isspace :: "char \<Rightarrow> bool" where
  "isspace c = (c \<in> set [CHR 0x20, CHR 0x09, CHR 0x0A, CHR 0x0B, CHR 0x0C, CHR 0x0D])"

definition startswith :: "string \<Rightarrow> string \<Rightarrow> bool" where
  "startswith s p = (take (length p) s = p)"

definition endswith :: "string \<Rightarrow> string \<Rightarrow> bool" where
  "endswith s p = (length p \<le> length s \<and> drop (length s - length p) s = p)"

text \<open>\<open>s.rindex(sub)\<close>: the highest index at which \<open>sub\<close> occurs, \<open>None\<close> for ValueError.\<close>

definition rindex :: "string \<Rightarrow> string \<Rightarrow> nat option" where
  "rindex s sub =
     (if length s < length sub then None
      else case filter (\<lambda>i. take (length sub) (drop i s) = sub)
                       (rev [0 ..< Suc (length s - length sub)]) of
             [] \<Rightarrow> None
           | i # _ \<Rightarrow> Some i)"

text \<open>\<open>s.strip()\<close> and \<open>s.strip(chars)\<close>.\<close>

definition strip :: "string \<Rightarrow> string" where
  "strip s = rev (dropWhile isspace (rev (dropWhile isspace s)))"

definition strip_chars :: "string \<Rightarrow> string \<Rightarrow> string" where
  "strip_chars chars s =
     rev (dropWhile (\<lambda>c. c \<in> set chars) (rev (dropWhile (\<lambda>c. c \<in> set chars) s)))"

text \<open>
  \<open>s.split(sep)\<close> for a one-character separator: a separator starts a new field, any
  other character goes to the front of the first field of the rest. The result is never
  the empty list (lemma \<open>split_not_Nil\<close>), so the first case of the \<open>case\<close> is never taken.
\<close>

fun split :: "char \<Rightarrow> string \<Rightarrow> string list" where
  "split sep [] = [[]]"
| "split sep (c # cs) =
     (if c = sep then [] # split sep cs
      else case split sep cs of
             [] \<Rightarrow> [[c]]
           | w # ws \<Rightarrow> (c # w) # ws)"

text \<open>\<open>int(s)\<close> on a string of decimal digits, and \<open>"%d" % n\<close> for \<open>n \<ge> 0\<close>.\<close>

definition digit_val :: "char \<Rightarrow> nat" where
  "digit_val c = of_char c - 48"

definition int_of_digits :: "string \<Rightarrow> nat" where
  "int_of_digits s = foldl (\<lambda>a c. 10 * a + digit_val c) 0 s"

definition digit_char :: "nat \<Rightarrow> char" where
  "digit_char d = ''0123456789'' ! d"

fun format_d :: "nat \<Rightarrow> string" where
  "format_d n = (if n < 10 then [digit_char n] else format_d (n div 10) @ [digit_char (n mod 10)])"

declare format_d.simps [simp del]

section \<open>The describe pattern\<close>

text \<open>
  \<open>re.search(r'^(.+)-(\d+)-g([0-9a-f]+)$', s)\<close>, read from the right: the hex group is the
  run of hex characters at the end, after \<open>-g\<close>; the number is the run of digits before
  that, after a hyphen; the tag is all the rest, at least one character and none a line
  break (\<open>.\<close> matches no newline). \<open>$\<close> also matches just before a newline that ends the
  string. The result is the three groups, \<open>None\<close> when there is no match.
\<close>

definition re_describe :: "string \<Rightarrow> (string \<times> string \<times> string) option" where
  "re_describe s =
     (let s' = (if s \<noteq> [] \<and> last s = CHR 0x0A then butlast s else s);
          r = rev s';
          hex = takeWhile ishex r;
          r1 = dropWhile ishex r
      in if hex = [] then None
         else case r1 of
           g # m # r2 \<Rightarrow>
             if g = CHR ''g'' \<and> m = CHR ''-'' then
               (let num = takeWhile isdigit r2;
                    r3 = dropWhile isdigit r2
                in if num = [] then None
                   else case r3 of
                     m2 # rtag \<Rightarrow>
                       if m2 = CHR ''-'' \<and> rtag \<noteq> [] \<and> CHR 0x0A \<notin> set rtag
                       then Some (rev rtag, rev num, rev hex)
                       else None
                   | [] \<Rightarrow> None)
             else None
         | _ \<Rightarrow> None)"

section \<open>\<open>git_parse_vcs_describe\<close>\<close>

text \<open>
  The result is the pair \<open>(version, dirty)\<close>; the version is \<open>None\<close> where the source
  returns \<open>None\<close> for it. \<open>git_describe[:git_describe.rindex("-dirty")]\<close> runs only when
  the string ends with \<open>-dirty\<close>, where \<open>rindex\<close> is the length less 6
  (lemma \<open>rindex_endswith\<close>).
\<close>

definition git_parse_vcs_describe :: "string \<Rightarrow> string \<Rightarrow> string option \<times> bool" where
  "git_parse_vcs_describe git_describe0 tag_prefix =
     (let dirty = endswith git_describe0 ''-dirty'';
          git_describe = (if dirty then take (length git_describe0 - 6) git_describe0
                          else git_describe0);
          dirty_suffix = (if dirty then ''.dirty'' else '''')
      in if CHR ''-'' \<notin> set git_describe
         then (Some (''0+untagged.g'' @ git_describe @ dirty_suffix), dirty)
         else case re_describe git_describe of
           None \<Rightarrow> (Some (''0+unparseable'' @ dirty_suffix), dirty)
         | Some (full_tag, num, commit) \<Rightarrow>
             if \<not> startswith full_tag tag_prefix then (None, dirty)
             else
               (let tag = drop (length tag_prefix) full_tag;
                    distance = int_of_digits num;
                    version = tag
                in (Some (if distance \<noteq> 0 \<or> dirty
                          then version @ ''+'' @ format_d distance @ ''.g'' @ commit @ dirty_suffix
                          else version),
                    dirty)))"

text \<open>The line \<open>TAG-NUM-gHEX\<close> built from its three fields.\<close>

definition describe_line :: "string \<Rightarrow> string \<Rightarrow> string \<Rightarrow> string" where
  "describe_line tag num hex = tag @ ''-'' @ num @ ''-g'' @ hex"

text \<open>
  A string has the shape of the pattern when it is such a line (or one followed by a final
  newline) whose tag is a non-empty text without line break, whose number is a non-empty
  run of digits and whose hex field is a non-empty run of lowercase hex characters.
\<close>

definition describe_pattern :: "string \<Rightarrow> bool" where
  "describe_pattern s =
     (\<exists>tag num hex.
        (s = describe_line tag num hex \<or> s = describe_line tag num hex @ [CHR 0x0A]) \<and>
        tag \<noteq> [] \<and> CHR 0x0A \<notin> set tag \<and> num \<noteq> [] \<and> list_all isdigit num \<and>
        hex \<noteq> [] \<and> list_all ishex hex)"

section \<open>Versions, keywords and errors\<close>

text \<open>
  The dictionary \<open>{"version": ..., "full": ...}\<close>. The version is optional because
  \<open>git_versions_from_vcs\<close> stores whatever \<open>git_parse_vcs_describe\<close> returned, \<open>None\<close>
  included. A resolver's empty result (\<open>{}\<close> or \<open>None\<close>, both false in Python) is
  \<open>None\<close> of the option type; an uncaught exception is the left summand.
\<close>

record VersionInfo =
  version :: "string option"
  full :: string

datatype error = KeyError string | UnicodeDecodeError

text \<open>
  \<open>stdout.decode()\<close> of Python 3: the bytes must be well-formed UTF-8 (no overlong form,
  no surrogate, nothing above U+10FFFF), else UnicodeDecodeError is raised. The text
  keeps its UTF-8 encoding in the model.
\<close>

definition utf8_cont :: "nat \<Rightarrow> bool" where
  "utf8_cont b = (0x80 \<le> b \<and> b \<le> 0xBF)"

fun utf8_valid :: "nat list \<Rightarrow> bool" where
  "utf8_valid [] = True"
| "utf8_valid (b # bs) =
     (if b \<le> 0x7F then utf8_valid bs
      else if 0xC2 \<le> b \<and> b \<le> 0xDF then
        (case bs of
           c1 # r \<Rightarrow> utf8_cont c1 \<and> utf8_valid r
         | _ \<Rightarrow> False)
      else if 0xE0 \<le> b \<and> b \<le> 0xEF then
        (case bs of
           c1 # c2 # r \<Rightarrow>
             (if b = 0xE0 then 0xA0 \<le> c1 \<and> c1 \<le> 0xBF
              else if b = 0xED then 0x80 \<le> c1 \<and> c1 \<le> 0x9F
              else utf8_cont c1) \<and>
             utf8_cont c2 \<and> utf8_valid r
         | _ \<Rightarrow> False)
      else if 0xF0 \<le> b \<and> b \<le> 0xF4 then
        (case bs of
           c1 # c2 # c3 # r \<Rightarrow>
             (if b = 0xF0 then 0x90 \<le> c1 \<and> c1 \<le> 0xBF
              else if b = 0xF4 then 0x80 \<le> c1 \<and> c1 \<le> 0x8F
              else utf8_cont c1) \<and>
             utf8_cont c2 \<and> utf8_cont c3 \<and> utf8_valid r
         | _ \<Rightarrow> False)
      else False)"

definition decode :: "string \<Rightarrow> error + string" where
  "decode stdout =
     (if utf8_valid (map of_char stdout) then Inr stdout else Inl UnicodeDecodeError)"

section \<open>\<open>versions_from_parentdir\<close>, \<open>run_command\<close> and the operating system\<close>

datatype popen_result = ENOENT | OtherError | Exited int string

text \<open>
  What the module asks of its environment: \<open>os.path.realpath(__file__)\<close> (\<open>None\<close> when
  \<open>__file__\<close> is not defined and the lookup raises NameError), the \<open>os.path\<close> functions,
  \<open>sys.platform\<close>, \<open>sys.version_info[0]\<close>, and \<open>subprocess.Popen\<close> followed by
  \<open>communicate\<close>: the launch fails with ENOENT or another EnvironmentError, or the
  process exits with a return code and the bytes of its standard output.
\<close>

record os =
  path_realpath_file :: "string option"
  path_dirname :: "string \<Rightarrow> string"
  path_basename :: "string \<Rightarrow> string"
  path_join :: "string \<Rightarrow> string \<Rightarrow> string"
  path_exists :: "string \<Rightarrow> bool"
  sys_platform :: string
  sys_version_major :: nat
  popen :: "string \<Rightarrow> string list \<Rightarrow> string \<Rightarrow> popen_result"

text \<open>
  The \<open>for ... else\<close> loop over the candidate executables. The output is stripped, then
  decoded under Python 3, outside every \<open>try\<close> and before the return code is looked at:
  a UnicodeDecodeError leaves the function.
\<close>

fun run_command ::
    "os \<Rightarrow> string list \<Rightarrow> string list \<Rightarrow> string \<Rightarrow> error + string option" where
  "run_command os [] args cwd = Inr None"
| "run_command os (c # commands) args cwd =
     (case popen os c args cwd of
        ENOENT \<Rightarrow> run_command os commands args cwd
      | OtherError \<Rightarrow> Inr None
      | Exited returncode out \<Rightarrow>
          (case (if 3 \<le> sys_version_major os then decode (strip out) else Inr (strip out)) of
             Inl e \<Rightarrow> Inl e
           | Inr stdout \<Rightarrow> if returncode \<noteq> 0 then Inr None else Inr (Some stdout)))"

definition versions_from_parentdir :: "os \<Rightarrow> string \<Rightarrow> string \<Rightarrow> VersionInfo option" where
  "versions_from_parentdir os parentdir_prefix root =
     (let dirname = path_basename os root
      in if \<not> startswith dirname parentdir_prefix then None
         else Some \<lparr>version = Some (drop (length parentdir_prefix) dirname), full = []\<rparr>)"

text \<open>\<open>posixpath\<close>: \<open>basename\<close>, \<open>dirname\<close> and \<open>join\<close> of two components.\<close>

definition posix_basename :: "string \<Rightarrow> string" where
  "posix_basename p = rev (takeWhile (\<lambda>c. c \<noteq> CHR ''/'') (rev p))"

definition posix_dirname :: "string \<Rightarrow> string" where
  "posix_dirname p =
     (let head = rev (dropWhile (\<lambda>c. c \<noteq> CHR ''/'') (rev p))
      in if head \<noteq> [] \<and> \<not> list_all (\<lambda>c. c = CHR ''/'') head
         then rev (dropWhile (\<lambda>c. c = CHR ''/'') (rev head))
         else head)"

definition posix_join :: "string \<Rightarrow> string \<Rightarrow> string" where
  "posix_join a b =
     (if startswith b ''/'' then b
      else if a = [] \<or> endswith a ''/'' then a @ b
      else a @ ''/'' @ b)"

section \<open>\<open>git_get_keywords\<close>\<close>

text \<open>
  \<open>re.search(r'=\s*"(.*)"', line)\<close>: the first \<open>=\<close> that is followed, after any white
  space, by a double quote with another double quote later on the same line; the group is
  the text between that quote and the last one before the line ends.
\<close>

fun re_assignment :: "string \<Rightarrow> string option" where
  "re_assignment [] = None"
| "re_assignment (c # cs) =
     (if c = CHR ''='' then
        (case dropWhile isspace cs of
           [] \<Rightarrow> re_assignment cs
         | q # rest \<Rightarrow>
             (let seg = takeWhile (\<lambda>x. x \<noteq> CHR 0x0A) rest
              in if q = CHR 0x22 \<and> CHR 0x22 \<in> set seg
                 then Some (rev (tl (dropWhile (\<lambda>x. x \<noteq> CHR 0x22) (rev seg))))
                 else re_assignment cs))
      else re_assignment cs)"

text \<open>One round of the loop over the lines of the file.\<close>

definition keyword_line :: "(string \<rightharpoonup> string) \<Rightarrow> string \<Rightarrow> (string \<rightharpoonup> string)" where
  "keyword_line keywords line =
     (let keywords1 =
            (if startswith (strip line) ''git_refnames ='' then
               (case re_assignment line of
                  Some g \<Rightarrow> keywords(''refnames'' \<mapsto> g)
                | None \<Rightarrow> keywords)
             else keywords)
      in if startswith (strip line) ''git_full ='' then
           (case re_assignment line of
              Some g \<Rightarrow> keywords1(''full'' \<mapsto> g)
            | None \<Rightarrow> keywords1)
         else keywords1)"

text \<open>
  The argument is what \<open>open(versionfile_abs).readlines()\<close> gives: the lines of the file,
  or \<open>None\<close> when it raises EnvironmentError.
\<close>

definition git_get_keywords :: "string list option \<Rightarrow> (string \<rightharpoonup> string)" where
  "git_get_keywords file =
     (case file of
        None \<Rightarrow> Map.empty
      | Some lines \<Rightarrow> foldl keyword_line Map.empty lines)"

section \<open>\<open>git_versions_from_keywords\<close>\<close>

definition TAG :: string where
  "TAG = ''tag: ''"

text \<open>The sets \<open>refs\<close> and \<open>tags\<close> of the source.\<close>

definition keyword_refs :: "string \<Rightarrow> string set" where
  "keyword_refs refnames = set (map strip (split CHR '','' (strip_chars ''()'' refnames)))"

definition keyword_tags :: "string set \<Rightarrow> string set" where
  "keyword_tags refs =
     (let tags = (\<lambda>r. drop (length TAG) r) ` {r \<in> refs. startswith r TAG}
      in if tags = {} then {r \<in> refs. list_ex isdigit r} else tags)"

definition git_versions_from_keywords ::
    "(string \<rightharpoonup> string) \<Rightarrow> string \<Rightarrow> error + VersionInfo option" where
  "git_versions_from_keywords keywords tag_prefix =
     (if keywords = Map.empty then Inr None
      else case keywords ''refnames'' of
        None \<Rightarrow> Inl (KeyError ''refnames'')
      | Some v \<Rightarrow>
          (let refnames = strip v
           in if startswith refnames ''$Format'' then Inr None
              else
                (let refs = keyword_refs refnames;
                     tags = keyword_tags refs
                 in case find (\<lambda>ref. startswith ref tag_prefix) (sorted_list_of_set tags) of
                      Some ref \<Rightarrow>
                        (case keywords ''full'' of
                           None \<Rightarrow> Inl (KeyError ''full'')
                         | Some f \<Rightarrow>
                             Inr (Some \<lparr>version = Some (drop (length tag_prefix) ref),
                                        full = strip f\<rparr>))
                    | None \<Rightarrow>
                        (case keywords ''full'' of
                           None \<Rightarrow> Inl (KeyError ''full'')
                         | Some f \<Rightarrow>
                             Inr (Some \<lparr>version = Some ''0+unknown'', full = strip f\<rparr>)))))"

section \<open>\<open>git_versions_from_vcs\<close> and \<open>get_versions\<close>\<close>

definition git_versions_from_vcs ::
    "os \<Rightarrow> string \<Rightarrow> string \<Rightarrow> error + VersionInfo option" where
  "git_versions_from_vcs os tag_prefix root =
     (if \<not> path_exists os (path_join os root ''.git'') then Inr None
      else
        (let GITS = (if sys_platform os = ''win32'' then [''git.cmd'', ''git.exe'']
                     else [''git''])
         in case run_command os GITS
                   [''describe'', ''--tags'', ''--dirty'', ''--always'', ''--long''] root of
              Inl e \<Rightarrow> Inl e
            | Inr None \<Rightarrow> Inr None
            | Inr (Some stdout) \<Rightarrow>
                (let (version, dirty) = git_parse_vcs_describe stdout tag_prefix
                 in case run_command os GITS [''rev-parse'', ''HEAD''] root of
                      Inl e \<Rightarrow> Inl e
                    | Inr None \<Rightarrow> Inr None
                    | Inr (Some stdout2) \<Rightarrow>
                        Inr (Some \<lparr>version = version,
                                   full = strip stdout2 @
                                     (if dirty then ''.dirty'' else [])\<rparr>))))"

text \<open>The constants at the head of the module.\<close>

record config =
  cfg_git_refnames :: string
  cfg_git_full :: string
  cfg_tag_prefix :: string
  cfg_parentdir_prefix :: string
  cfg_versionfile_source :: string

definition khmer_config :: "string \<Rightarrow> string \<Rightarrow> config" where
  "khmer_config refnames full_id =
     \<lparr>cfg_git_refnames = refnames, cfg_git_full = full_id, cfg_tag_prefix = ''v'',
      cfg_parentdir_prefix = ''.'', cfg_versionfile_source = ''khmer/_version.py''\<rparr>"

text \<open>The root of the tree: one \<open>dirname\<close> for each component of \<open>versionfile_source\<close>.\<close>

definition source_root :: "config \<Rightarrow> os \<Rightarrow> string \<Rightarrow> string" where
  "source_root cfg os p =
     fold (\<lambda>i root. path_dirname os root) (split CHR ''/'' (cfg_versionfile_source cfg)) p"

definition get_versions :: "config \<Rightarrow> os \<Rightarrow> VersionInfo \<Rightarrow> error + VersionInfo" where
  "get_versions cfg os default_ver =
     (let keywords = [''refnames'' \<mapsto> cfg_git_refnames cfg, ''full'' \<mapsto> cfg_git_full cfg]
      in case git_versions_from_keywords keywords (cfg_tag_prefix cfg) of
           Inl e \<Rightarrow> Inl e
         | Inr (Some ver) \<Rightarrow> Inr ver
         | Inr None \<Rightarrow>
             (case path_realpath_file os of
                None \<Rightarrow> Inr default_ver
              | Some p \<Rightarrow>
                  (let root = source_root cfg os p
                   in case git_versions_from_vcs os (cfg_tag_prefix cfg) root of
                        Inl e \<Rightarrow> Inl e
                      | Inr (Some ver) \<Rightarrow> Inr ver
                      | Inr None \<Rightarrow>
                          (case versions_from_parentdir os (cfg_parentdir_prefix cfg) root of
                             Some ver \<Rightarrow> Inr ver
                           | None \<Rightarrow> Inr default_ver))))"

text \<open>
  A POSIX system with Python 3 for the examples: the path of the file, whether \<open>.git\<close>
  exists, and what \<open>git\<close> does with its arguments.
\<close>

definition posix_os :: "string option \<Rightarrow> bool \<Rightarrow> (string list \<Rightarrow> popen_result) \<Rightarrow> os" where
  "posix_os file has_git git =
     \<lparr>path_realpath_file = file, path_dirname = posix_dirname, path_basename = posix_basename,
      path_join = posix_join, path_exists = (\<lambda>p. has_git), sys_platform = ''linux'',
      sys_version_major = 3,
      popen = (\<lambda>c args cwd. if c = ''git'' then git args else ENOENT)\<rparr>"

text \<open>A \<open>git\<close> that prints a given line for \<open>describe\<close> and a given id for \<open>rev-parse HEAD\<close>.\<close>

definition example_git :: "string \<Rightarrow> string \<Rightarrow> string list \<Rightarrow> popen_result" where
  "example_git describe_out head_id args =
     (if args = [''rev-parse'', ''HEAD''] then Exited 0 (head_id @ [CHR 0x0A])
      else Exited 0 (describe_out @ [CHR 0x0A]))"

text \<open>
  A describe line whose tag ends with the byte E9, an accented letter in Latin-1: the
  line is no UTF-8, as E9 would have to be followed by two continuation bytes.
\<close>

definition latin1_describe_line :: string where
  "latin1_describe_line = ''v1.0-caf'' @ [CHR 0xE9] @ ''-3-gabc123''"

section \<open>Facts about the string primitives\<close>

lemma takeWhile_run: "list_all P xs \<Longrightarrow> \<not> P y \<Longrightarrow> takeWhile P (xs @ y # ys) = xs"
  by (induction xs) auto

lemma dropWhile_run: "list_all P xs \<Longrightarrow> \<not> P y \<Longrightarrow> dropWhile P (xs @ y # ys) = y # ys"
  by (induction xs) auto

lemma list_all_rev: "list_all P (rev xs) = list_all P xs"
  by (simp add: list_all_iff)

lemma not_ishex: "\<not> ishex CHR ''g''" "\<not> ishex CHR ''-''" "\<not> ishex CHR 0x0A" "\<not> ishex CHR ''y''"
  by (simp_all add: ishex_def)

lemma not_isdigit_hyphen: "\<not> isdigit CHR ''-''"
  by (simp add: isdigit_def)

lemma split_not_Nil: "split sep s \<noteq> []"
  by (induction s) (auto split: list.splits)

lemma endswith_append: "endswith (r @ p) p"
  by (simp add: endswith_def)

lemma endswith_last: "endswith s p \<Longrightarrow> p \<noteq> [] \<Longrightarrow> last s = last p"
  unfolding endswith_def
  by (metis append_take_drop_id last_appendR)

lemma endswith_subset: "endswith s p \<Longrightarrow> set p \<subseteq> set s"
  unfolding endswith_def by (metis set_drop_subset)

text \<open>Where the string ends with the marker, \<open>rindex\<close> finds it at the length less 6.\<close>

lemma rindex_endswith:
  assumes "endswith s p"
  shows "rindex s p = Some (length s - length p)"
proof -
  from assms have len: "length p \<le> length s" and d: "drop (length s - length p) s = p"
    by (simp_all add: endswith_def)
  have "rev [0 ..< Suc (length s - length p)] = (length s - length p) # rev [0 ..< length s - length p]"
    by simp
  then show ?thesis
    unfolding rindex_def using len d by simp
qed

subsection \<open>\<open>int\<close> and \<open>%d\<close>\<close>

lemma int_of_digits_snoc: "int_of_digits (ds @ [d]) = 10 * int_of_digits ds + digit_val d"
  by (simp add: int_of_digits_def)

lemma digit_char_val: "isdigit d \<Longrightarrow> digit_char (digit_val d) = d"
  by (auto simp: isdigit_def digit_char_def digit_val_def)

lemma digit_val_less: "isdigit d \<Longrightarrow> digit_val d < 10"
  by (auto simp: isdigit_def digit_val_def)

lemma digit_val_pos: "isdigit d \<Longrightarrow> d \<noteq> CHR ''0'' \<Longrightarrow> 0 < digit_val d"
  by (auto simp: isdigit_def digit_val_def)

lemma format_d_0: "format_d 0 = ''0''"
  by (simp add: format_d.simps digit_char_def)

lemma format_d_digits: "list_all isdigit (format_d n)"
proof (induction n rule: format_d.induct)
  case (1 n)
  have dc: "isdigit (digit_char k)" if "k < 10" for k
  proof -
    from that have "k \<in> {0, 1, 2, 3, 4, 5, 6, 7, 8, 9}" by auto
    then show ?thesis by (auto simp: digit_char_def isdigit_def)
  qed
  show ?case
  proof (cases "n < 10")
    case True
    then show ?thesis by (simp add: format_d.simps [of n] dc)
  next
    case False
    with 1 show ?thesis by (simp add: format_d.simps [of n] dc)
  qed
qed

text \<open>A digit string without leading zero is printed back as it was read.\<close>

lemma format_d_int_of_digits:
  assumes "ds \<noteq> []" "list_all isdigit ds" "hd ds \<noteq> CHR ''0''"
  shows "format_d (int_of_digits ds) = ds \<and> 0 < int_of_digits ds"
  using assms
proof (induction ds rule: rev_nonempty_induct)
  case (single d)
  then have "isdigit d" "d \<noteq> CHR ''0''" by simp_all
  then show ?case
    using digit_val_less [of d] digit_val_pos [of d] digit_char_val [of d]
    by (simp add: int_of_digits_def format_d.simps)
next
  case (snoc d ds)
  then have ih: "format_d (int_of_digits ds) = ds" "0 < int_of_digits ds" and d: "isdigit d"
    by (simp_all add: hd_append)
  let ?n = "10 * int_of_digits ds + digit_val d"
  have "\<not> ?n < 10" using ih(2) by simp
  moreover have "?n div 10 = int_of_digits ds" "?n mod 10 = digit_val d"
    using digit_val_less [OF d] by simp_all
  ultimately show ?case
    using ih d by (simp add: int_of_digits_snoc format_d.simps [of ?n] digit_char_val)
qed

subsection \<open>The pattern and its matcher\<close>

lemma rev_describe_line:
  "rev (describe_line tag num hex) = rev hex @ CHR ''g'' # CHR ''-'' # rev num @ CHR ''-'' # rev tag"
  by (simp add: describe_line_def)

lemma last_describe_line: "hex \<noteq> [] \<Longrightarrow> last (describe_line tag num hex) = last hex"
  by (simp add: describe_line_def)

lemma hyphen_in_describe_line: "CHR ''-'' \<in> set (describe_line tag num hex)"
  by (simp add: describe_line_def)

lemma last_hex_ishex: "hex \<noteq> [] \<Longrightarrow> list_all ishex hex \<Longrightarrow> ishex (last hex)"
  by (simp add: list_all_iff)

lemma describe_line_not_dirty:
  assumes "hex \<noteq> []" "list_all ishex hex"
  shows "\<not> endswith (describe_line tag num hex) ''-dirty''"
proof
  assume "endswith (describe_line tag num hex) ''-dirty''"
  then have "last (describe_line tag num hex) = CHR ''y''"
    using endswith_last by fastforce
  then show False
    using assms last_hex_ishex [OF assms] not_ishex(4) by (simp add: last_describe_line)
qed

lemma re_describe_line:
  assumes n: "num \<noteq> []" "list_all isdigit num" and h: "hex \<noteq> []" "list_all ishex hex"
  shows "re_describe (describe_line tag num hex) =
           (if tag \<noteq> [] \<and> CHR 0x0A \<notin> set tag then Some (tag, num, hex) else None)"
proof -
  let ?s = "describe_line tag num hex"
  have nl: "last ?s \<noteq> CHR 0x0A"
    using h last_hex_ishex [OF h] not_ishex(3) by (auto simp: last_describe_line)
  have tw: "takeWhile ishex (rev ?s) = rev hex"
    unfolding rev_describe_line using h(2) by (simp add: takeWhile_run list_all_rev not_ishex)
  have dw: "dropWhile ishex (rev ?s) = CHR ''g'' # CHR ''-'' # rev num @ CHR ''-'' # rev tag"
    unfolding rev_describe_line using h(2) by (simp add: dropWhile_run list_all_rev not_ishex)
  have tw2: "takeWhile isdigit (rev num @ CHR ''-'' # rev tag) = rev num"
    using n(2) by (simp add: takeWhile_run list_all_rev not_isdigit_hyphen)
  have dw2: "dropWhile isdigit (rev num @ CHR ''-'' # rev tag) = CHR ''-'' # rev tag"
    using n(2) by (simp add: dropWhile_run list_all_rev not_isdigit_hyphen)
  show ?thesis
    unfolding re_describe_def using nl n(1) h(1) by (simp add: tw dw tw2 dw2 Let_def)
qed

lemma re_describe_newline:
  assumes "hex \<noteq> []" "list_all ishex hex"
  shows "re_describe (describe_line tag num hex @ [CHR 0x0A]) = re_describe (describe_line tag num hex)"
proof -
  have "last (describe_line tag num hex) \<noteq> CHR 0x0A"
    using assms last_hex_ishex [OF assms] not_ishex(3) by (auto simp: last_describe_line)
  moreover have "describe_line tag num hex \<noteq> []"
    using assms by (simp add: describe_line_def)
  ultimately show ?thesis by (simp add: re_describe_def)
qed

lemma re_describe_SomeD:
  assumes "re_describe s = Some (tag, num, hex)"
  shows "(s = describe_line tag num hex \<or> s = describe_line tag num hex @ [CHR 0x0A]) \<and>
         tag \<noteq> [] \<and> CHR 0x0A \<notin> set tag \<and> num \<noteq> [] \<and> list_all isdigit num \<and>
         hex \<noteq> [] \<and> list_all ishex hex"
proof -
  define s' where "s' = (if s \<noteq> [] \<and> last s = CHR 0x0A then butlast s else s)"
  define r where "r = rev s'"
  have ss': "s = s' \<or> s = s' @ [CHR 0x0A]"
    unfolding s'_def by (cases s rule: rev_cases) auto
  from assms obtain r2 where r1: "dropWhile ishex r = CHR ''g'' # CHR ''-'' # r2"
    and hx: "takeWhile ishex r \<noteq> []" "hex = rev (takeWhile ishex r)"
    and rest: "takeWhile isdigit r2 \<noteq> []" "num = rev (takeWhile isdigit r2)"
       "dropWhile isdigit r2 = CHR ''-'' # rev tag" "tag \<noteq> []" "CHR 0x0A \<notin> set tag"
    unfolding re_describe_def Let_def s'_def[symmetric] r_def[symmetric]
    by (auto split: list.splits if_splits)
  have "r = takeWhile ishex r @ dropWhile ishex r" by simp
  also have "\<dots> = rev hex @ CHR ''g'' # CHR ''-'' # (takeWhile isdigit r2 @ dropWhile isdigit r2)"
    using r1 hx by simp
  also have "\<dots> = rev hex @ CHR ''g'' # CHR ''-'' # rev num @ CHR ''-'' # rev tag"
    using rest by simp
  finally have "rev r = describe_line tag num hex" by (simp add: describe_line_def)
  then have "s' = describe_line tag num hex" by (simp add: r_def)
  moreover have "list_all ishex hex"
    using hx(2) by (simp add: list_all_iff) (metis set_takeWhileD)
  moreover have "list_all isdigit num"
    using rest(2) by (simp add: list_all_iff) (metis set_takeWhileD)
  ultimately show ?thesis using ss' hx rest by auto
qed

text \<open>The matcher finds a match exactly on the strings of the pattern's shape.\<close>

lemma re_describe_None_iff: "re_describe s = None \<longleftrightarrow> \<not> describe_pattern s"
proof
  assume none: "re_describe s = None"
  show "\<not> describe_pattern s"
  proof
    assume "describe_pattern s"
    then obtain tag num hex where
      s: "s = describe_line tag num hex \<or> s = describe_line tag num hex @ [CHR 0x0A]"
      and wf: "tag \<noteq> []" "CHR 0x0A \<notin> set tag" "num \<noteq> []" "list_all isdigit num"
        "hex \<noteq> []" "list_all ishex hex"
      unfolding describe_pattern_def by blast
    have "re_describe s = Some (tag, num, hex)"
      using s wf by (auto simp: re_describe_line re_describe_newline)
    with none show False by simp
  qed
next
  assume np: "\<not> describe_pattern s"
  show "re_describe s = None"
  proof (rule ccontr)
    assume "re_describe s \<noteq> None"
    then obtain tag num hex where "re_describe s = Some (tag, num, hex)" by auto
    from re_describe_SomeD [OF this] have "describe_pattern s"
      unfolding describe_pattern_def by blast
    with np show False by simp
  qed
qed

section \<open>The describe parser\<close>

lemma parse_clean:
  assumes "\<not> endswith s ''-dirty''"
  shows "git_parse_vcs_describe s p =
     (if CHR ''-'' \<notin> set s then (Some (''0+untagged.g'' @ s), False)
      else case re_describe s of
        None \<Rightarrow> (Some ''0+unparseable'', False)
      | Some (full_tag, num, commit) \<Rightarrow>
          if \<not> startswith full_tag p then (None, False)
          else (Some (if int_of_digits num \<noteq> 0
                      then drop (length p) full_tag @ ''+'' @ format_d (int_of_digits num)
                           @ ''.g'' @ commit
                      else drop (length p) full_tag), False))"
  using assms by (simp add: git_parse_vcs_describe_def split: option.splits)

lemma parse_dirty:
  "git_parse_vcs_describe (r @ ''-dirty'') p =
     (if CHR ''-'' \<notin> set r then (Some (''0+untagged.g'' @ r @ ''.dirty''), True)
      else case re_describe r of
        None \<Rightarrow> (Some ''0+unparseable.dirty'', True)
      | Some (full_tag, num, commit) \<Rightarrow>
          if \<not> startswith full_tag p then (None, True)
          else (Some (drop (length p) full_tag @ ''+'' @ format_d (int_of_digits num)
                      @ ''.g'' @ commit @ ''.dirty''), True))"
proof -
  have "endswith (r @ ''-dirty'') ''-dirty''" by (rule endswith_append)
  moreover have "take (length (r @ ''-dirty'') - 6) (r @ ''-dirty'') = r" by simp
  ultimately show ?thesis
    unfolding git_parse_vcs_describe_def Let_def
    by (simp only: if_True) (simp split: option.splits)
qed

text \<open>
  C7. A describe input without hyphen once an optional trailing \<open>-dirty\<close> is removed is a
  bare commit id \<open>r\<close>: the version is \<open>0+untagged.g\<close> followed by \<open>r\<close>, and \<open>.dirty\<close> is
  appended exactly when the marker was there.
\<close>

theorem untagged_version:
  assumes "CHR ''-'' \<notin> set r"
  shows "git_parse_vcs_describe r tag_prefix = (Some (''0+untagged.g'' @ r), False) \<and>
         git_parse_vcs_describe (r @ ''-dirty'') tag_prefix =
           (Some (''0+untagged.g'' @ r @ ''.dirty''), True)"
proof -
  have "\<not> endswith r ''-dirty''"
    using assms endswith_subset [of r "''-dirty''"] by auto
  then show ?thesis
    using assms by (simp add: parse_clean parse_dirty)
qed

theorem untagged_version_witness:
  "CHR ''-'' \<notin> set ''abc123'' \<and>
   git_parse_vcs_describe ''abc123'' ''v'' = (Some ''0+untagged.gabc123'', False) \<and>
   git_parse_vcs_describe ''abc123-dirty'' ''v'' = (Some ''0+untagged.gabc123.dirty'', True)"
proof -
  have h: "CHR ''-'' \<notin> set ''abc123''" by simp
  from untagged_version [OF h, of "''v''"] show ?thesis using h by simp
qed

text \<open>
  C8. An input that, once an optional trailing \<open>-dirty\<close> is removed, contains a hyphen
  but has not the shape \<open>TAG-NUM-gHEX\<close> of the pattern gets the version \<open>0+unparseable\<close>,
  with \<open>.dirty\<close> appended exactly when the marker was there.
\<close>

theorem unparseable_version:
  assumes "CHR ''-'' \<in> set r" and "\<not> describe_pattern r"
  shows "(\<not> endswith r ''-dirty'' \<longrightarrow>
            git_parse_vcs_describe r tag_prefix = (Some ''0+unparseable'', False)) \<and>
         git_parse_vcs_describe (r @ ''-dirty'') tag_prefix = (Some ''0+unparseable.dirty'', True)"
proof -
  have "re_describe r = None" using assms(2) by (simp add: re_describe_None_iff)
  then show ?thesis using assms(1) by (simp add: parse_clean parse_dirty)
qed

theorem unparseable_version_witness:
  "CHR ''-'' \<in> set ''garbage-not-a-match'' \<and> \<not> describe_pattern ''garbage-not-a-match'' \<and>
   \<not> endswith ''garbage-not-a-match'' ''-dirty'' \<and>
   git_parse_vcs_describe ''garbage-not-a-match'' ''v'' = (Some ''0+unparseable'', False) \<and>
   git_parse_vcs_describe ''garbage-not-a-match-dirty'' ''v'' = (Some ''0+unparseable.dirty'', True)"
proof -
  have h1: "CHR ''-'' \<in> set ''garbage-not-a-match''" by simp
  have "re_describe ''garbage-not-a-match'' = None"
    by (simp add: re_describe_def ishex_def)
  then have h2: "\<not> describe_pattern ''garbage-not-a-match''"
    by (simp add: re_describe_None_iff)
  have h3: "\<not> endswith ''garbage-not-a-match'' ''-dirty''" by (simp add: endswith_def)
  from unparseable_version [OF h1 h2, of "''v''"] show ?thesis using h1 h2 h3 by simp
qed

text \<open>
  C1. For a describe line \<open>TAG-N-gHEX\<close> without dirty marker, where the tag (a non-empty
  piece of the line, so without line break) starts with the tag prefix, \<open>N\<close> is a
  non-empty string of digits and \<open>HEX\<close> a non-empty string of lowercase hex characters,
  the version is the tag without its prefix when \<open>N\<close> is zero, and that followed by
  \<open>+N.gHEX\<close> when \<open>N\<close> is positive; the \<open>N\<close> of the version is the digit string of the
  line itself when that has no leading zero, as in every output of \<open>git describe\<close>.
\<close>

theorem tagged_clean_version:
  assumes "startswith tag tag_prefix" and "tag \<noteq> []" and "CHR 0x0A \<notin> set tag"
    and "num \<noteq> []" and "list_all isdigit num" and "hex \<noteq> []" and "list_all ishex hex"
  shows "(int_of_digits num = 0 \<longrightarrow>
            git_parse_vcs_describe (describe_line tag num hex) tag_prefix =
              (Some (drop (length tag_prefix) tag), False)) \<and>
         (0 < int_of_digits num \<longrightarrow>
            git_parse_vcs_describe (describe_line tag num hex) tag_prefix =
              (Some (drop (length tag_prefix) tag @ ''+'' @ format_d (int_of_digits num)
                     @ ''.g'' @ hex), False)) \<and>
         (hd num \<noteq> CHR ''0'' \<longrightarrow>
            0 < int_of_digits num \<and> format_d (int_of_digits num) = num)"
proof -
  have "\<not> endswith (describe_line tag num hex) ''-dirty''"
    using assms(6,7) by (rule describe_line_not_dirty)
  moreover have "re_describe (describe_line tag num hex) = Some (tag, num, hex)"
    using assms by (simp add: re_describe_line)
  ultimately have "git_parse_vcs_describe (describe_line tag num hex) tag_prefix =
           (Some (drop (length tag_prefix) tag @
                  (if int_of_digits num = 0 then []
                   else ''+'' @ format_d (int_of_digits num) @ ''.g'' @ hex)), False)"
    using assms(1) by (simp add: parse_clean hyphen_in_describe_line)
  then show ?thesis
    using format_d_int_of_digits [OF assms(4,5)] by simp
qed

theorem tagged_clean_version_witness:
  "startswith ''v1.0-rc'' ''v'' \<and> ''v1.0-rc'' \<noteq> [] \<and> CHR 0x0A \<notin> set ''v1.0-rc'' \<and>
   ''12'' \<noteq> [] \<and> list_all isdigit ''12'' \<and> ''0'' \<noteq> [] \<and> list_all isdigit ''0'' \<and>
   ''abc123'' \<noteq> [] \<and> list_all ishex ''abc123'' \<and>
   int_of_digits ''0'' = 0 \<and> 0 < int_of_digits ''12'' \<and> hd ''12'' \<noteq> CHR ''0'' \<and>
   git_parse_vcs_describe ''v1.0-rc-0-gabc123'' ''v'' = (Some ''1.0-rc'', False) \<and>
   git_parse_vcs_describe ''v1.0-rc-12-gabc123'' ''v'' = (Some ''1.0-rc+12.gabc123'', False)"
proof -
  have t: "startswith ''v1.0-rc'' ''v''" "''v1.0-rc'' \<noteq> []" "CHR 0x0A \<notin> set ''v1.0-rc''"
    by (simp_all add: startswith_def)
  have d12: "''12'' \<noteq> []" "list_all isdigit ''12''" and d0: "''0'' \<noteq> []" "list_all isdigit ''0''"
    by (simp_all add: isdigit_def)
  have x: "''abc123'' \<noteq> []" "list_all ishex ''abc123''"
    by (simp_all add: ishex_def)
  have n: "int_of_digits ''0'' = 0" "int_of_digits ''12'' = 12"
    by (simp_all add: int_of_digits_def digit_val_def)
  from tagged_clean_version [OF t d0 x] tagged_clean_version [OF t d12 x]
  show ?thesis
    using t d12 d0 x n by (simp add: describe_line_def)
qed

text \<open>
  C2, as amended. For the same inputs (the tag now any string that starts with the prefix)
  followed by \<open>-dirty\<close>, the version ends in \<open>.dirty\<close>. What stands before that suffix is
  the version \<open>v\<close> of the input without the marker, except when \<open>N\<close> is zero and the tag
  is matched: then it is \<open>v\<close> followed by \<open>+0.gHEX\<close>, and \<open>v\<close> is the bare tag.
\<close>

theorem tagged_dirty_version:
  assumes "startswith tag tag_prefix"
    and "num \<noteq> []" and "list_all isdigit num" and "hex \<noteq> []" and "list_all ishex hex"
  shows "\<exists>v. git_parse_vcs_describe (describe_line tag num hex) tag_prefix = (Some v, False) \<and>
             git_parse_vcs_describe (describe_line tag num hex @ ''-dirty'') tag_prefix =
               (Some (v @ (if int_of_digits num = 0 \<and> tag \<noteq> [] \<and> CHR 0x0A \<notin> set tag
                           then ''+0.g'' @ hex else []) @ ''.dirty''), True)"
proof -
  have nd: "\<not> endswith (describe_line tag num hex) ''-dirty''"
    using assms(4,5) by (rule describe_line_not_dirty)
  show ?thesis
  proof (cases "tag \<noteq> [] \<and> CHR 0x0A \<notin> set tag")
    case True
    then have "re_describe (describe_line tag num hex) = Some (tag, num, hex)"
      using assms by (simp add: re_describe_line)
    then show ?thesis
      using nd assms(1) True
      by (simp add: parse_clean parse_dirty hyphen_in_describe_line format_d_0)
  next
    case False
    then have "re_describe (describe_line tag num hex) = None"
      using assms by (simp add: re_describe_line)
    then show ?thesis
      using nd False by (simp add: parse_clean parse_dirty hyphen_in_describe_line)
  qed
qed

theorem tagged_dirty_version_witness:
  "startswith ''v1.0'' ''v'' \<and> ''3'' \<noteq> [] \<and> list_all isdigit ''3'' \<and>
   ''abc123'' \<noteq> [] \<and> list_all ishex ''abc123'' \<and>
   (\<exists>v. git_parse_vcs_describe ''v1.0-3-gabc123'' ''v'' = (Some v, False) \<and>
        git_parse_vcs_describe ''v1.0-3-gabc123-dirty'' ''v'' = (Some (v @ ''.dirty''), True))"
proof -
  have h: "startswith ''v1.0'' ''v''" "''3'' \<noteq> []" "list_all isdigit ''3''"
    "''abc123'' \<noteq> []" "list_all ishex ''abc123''"
    by (simp_all add: startswith_def isdigit_def ishex_def)
  have n: "int_of_digits ''3'' = 3" by (simp add: int_of_digits_def digit_val_def)
  from tagged_dirty_version [OF h] show ?thesis
    using h n by (simp add: describe_line_def)
qed

text \<open>
  The claim as it was written fails for \<open>N = 0\<close>: the dirty input gives
  \<open>1.0+0.gabc.dirty\<close>, which without \<open>.dirty\<close> is \<open>1.0+0.gabc\<close>, and the clean input
  gives \<open>1.0\<close>. The comment in the source says so: a tagged build that is then dirtied
  gets \<open>TAG+0.gHEX.dirty\<close>.
\<close>

theorem tagged_dirty_version_counterexample:
  "git_parse_vcs_describe ''v1.0-0-gabc-dirty'' ''v'' = (Some (''1.0+0.gabc'' @ ''.dirty''), True) \<and>
   git_parse_vcs_describe ''v1.0-0-gabc'' ''v'' = (Some ''1.0'', False) \<and>
   ''1.0+0.gabc'' \<noteq> ''1.0''"
  by (simp add: git_parse_vcs_describe_def endswith_def re_describe_def ishex_def isdigit_def
      startswith_def int_of_digits_def digit_val_def format_d.simps digit_char_def Let_def)

section \<open>The keyword resolver\<close>

lemma finite_keyword_refs: "finite (keyword_refs refnames)"
  by (simp add: keyword_refs_def)

lemma finite_keyword_tags: "finite refs \<Longrightarrow> finite (keyword_tags refs)"
  by (simp add: keyword_tags_def Let_def)

lemma sorted_find_least:
  "sorted xs \<Longrightarrow> find P xs = Some x \<Longrightarrow> y \<in> set xs \<Longrightarrow> P y \<Longrightarrow> x \<le> y"
  by (induction xs) (auto split: if_splits)

lemma find_SomeD: "find P xs = Some x \<Longrightarrow> x \<in> set xs \<and> P x"
  by (induction xs) (auto split: if_splits)

lemma find_None_D: "find P xs = None \<Longrightarrow> y \<in> set xs \<Longrightarrow> \<not> P y"
  by (induction xs) (auto split: if_splits)

text \<open>With both entries present the resolver raises nothing.\<close>

lemma keywords_complete:
  assumes "keywords ''refnames'' = Some rn" and "keywords ''full'' = Some f"
  shows "git_versions_from_keywords keywords tag_prefix =
     Inr (if startswith (strip rn) ''$Format'' then None
          else case find (\<lambda>ref. startswith ref tag_prefix)
                      (sorted_list_of_set (keyword_tags (keyword_refs (strip rn)))) of
                 Some ref \<Rightarrow> Some \<lparr>version = Some (drop (length tag_prefix) ref), full = strip f\<rparr>
               | None \<Rightarrow> Some \<lparr>version = Some ''0+unknown'', full = strip f\<rparr>)"
proof -
  have "keywords \<noteq> Map.empty" using assms(1) by auto
  then show ?thesis
    using assms by (simp add: git_versions_from_keywords_def Let_def split: option.splits)
qed

text \<open>With the refnames entry alone, and expanded, it raises KeyError.\<close>

lemma keywords_partial:
  assumes "keywords ''refnames'' = Some rn" and "keywords ''full'' = None"
    and "\<not> startswith (strip rn) ''$Format''"
  shows "git_versions_from_keywords keywords tag_prefix = Inl (KeyError ''full'')"
proof -
  have "keywords \<noteq> Map.empty" using assms(1) by auto
  then show ?thesis
    using assms by (simp add: git_versions_from_keywords_def Let_def split: option.splits)
qed

lemma example_tags:
  "sorted_list_of_set (keyword_tags (keyword_refs (strip ''(tag: v2.0, tag: v2.0rc1, master)'')))
     = [''v2.0'', ''v2.0rc1'']"
  by code_simp

text \<open>
  C9. Where some candidate tag starts with the tag prefix, the version is the least such
  candidate in the lexicographic order, without the prefix: the first one met when the
  candidates are gone through in sorted order. For the refnames
  \<open>(tag: v2.0, tag: v2.0rc1, master)\<close> and the prefix \<open>v\<close> the version is \<open>2.0\<close>.
\<close>

theorem keywords_least_tag:
  "(keywords ''refnames'' = Some rn \<and> keywords ''full'' = Some f \<and>
    \<not> startswith (strip rn) ''$Format'' \<and>
    (\<exists>t \<in> keyword_tags (keyword_refs (strip rn)). startswith t tag_prefix) \<longrightarrow>
    (\<exists>ref \<in> keyword_tags (keyword_refs (strip rn)).
        startswith ref tag_prefix \<and>
        (\<forall>t \<in> keyword_tags (keyword_refs (strip rn)). startswith t tag_prefix \<longrightarrow> ref \<le> t) \<and>
        git_versions_from_keywords keywords tag_prefix =
          Inr (Some \<lparr>version = Some (drop (length tag_prefix) ref), full = strip f\<rparr>))) \<and>
   git_versions_from_keywords
       [''refnames'' \<mapsto> ''(tag: v2.0, tag: v2.0rc1, master)'', ''full'' \<mapsto> f'] ''v''
     = Inr (Some \<lparr>version = Some ''2.0'', full = strip f'\<rparr>)"
proof (intro conjI impI)
  assume a: "keywords ''refnames'' = Some rn \<and> keywords ''full'' = Some f \<and>
    \<not> startswith (strip rn) ''$Format'' \<and>
    (\<exists>t \<in> keyword_tags (keyword_refs (strip rn)). startswith t tag_prefix)"
  let ?T = "keyword_tags (keyword_refs (strip rn))"
  let ?xs = "sorted_list_of_set ?T"
  have fin: "finite ?T" by (simp add: finite_keyword_tags finite_keyword_refs)
  then have set_xs: "set ?xs = ?T" and srt: "sorted ?xs" by simp_all
  from a obtain t where t: "t \<in> ?T" "startswith t tag_prefix" by blast
  obtain ref where ref: "find (\<lambda>r. startswith r tag_prefix) ?xs = Some ref"
    using find_None_D [of "\<lambda>r. startswith r tag_prefix" ?xs t] t set_xs
    by (cases "find (\<lambda>r. startswith r tag_prefix) ?xs") auto
  have "ref \<in> ?T" "startswith ref tag_prefix"
    using find_SomeD [OF ref] set_xs by auto
  moreover have "\<forall>t \<in> ?T. startswith t tag_prefix \<longrightarrow> ref \<le> t"
    using sorted_find_least [OF srt ref] set_xs by blast
  moreover have "git_versions_from_keywords keywords tag_prefix =
          Inr (Some \<lparr>version = Some (drop (length tag_prefix) ref), full = strip f\<rparr>)"
    using a ref by (simp add: keywords_complete)
  ultimately show "\<exists>ref \<in> ?T. startswith ref tag_prefix \<and>
        (\<forall>t \<in> ?T. startswith t tag_prefix \<longrightarrow> ref \<le> t) \<and>
        git_versions_from_keywords keywords tag_prefix =
          Inr (Some \<lparr>version = Some (drop (length tag_prefix) ref), full = strip f\<rparr>)"
    by blast
next
  have "\<not> startswith (strip ''(tag: v2.0, tag: v2.0rc1, master)'') ''$Format''"
    by (simp add: strip_def isspace_def startswith_def)
  then show "git_versions_from_keywords
       [''refnames'' \<mapsto> ''(tag: v2.0, tag: v2.0rc1, master)'', ''full'' \<mapsto> f'] ''v''
     = Inr (Some \<lparr>version = Some ''2.0'', full = strip f'\<rparr>)"
    by (simp add: keywords_complete [of _ "''(tag: v2.0, tag: v2.0rc1, master)''" f']
        example_tags startswith_def)
qed

theorem keywords_least_tag_witness:
  "\<exists>ref \<in> {''v2.0'', ''v2.0rc1''}.
      startswith ref ''v'' \<and> ref \<le> ''v2.0'' \<and> ref \<le> ''v2.0rc1'' \<and>
      git_versions_from_keywords
          [''refnames'' \<mapsto> ''(tag: v2.0, tag: v2.0rc1, master)'', ''full'' \<mapsto> ''0123abc'']
          ''v''
        = Inr (Some \<lparr>version = Some (drop (length ''v'') ref), full = strip ''0123abc''\<rparr>)"
proof -
  let ?kw = "[''refnames'' \<mapsto> ''(tag: v2.0, tag: v2.0rc1, master)'', ''full'' \<mapsto> ''0123abc'']"
  let ?rn = "''(tag: v2.0, tag: v2.0rc1, master)''"
  have T: "keyword_tags (keyword_refs (strip ?rn)) = {''v2.0'', ''v2.0rc1''}"
    by code_simp
  have h: "?kw ''refnames'' = Some ?rn \<and> ?kw ''full'' = Some ''0123abc'' \<and>
      \<not> startswith (strip ?rn) ''$Format'' \<and>
      (\<exists>t \<in> keyword_tags (keyword_refs (strip ?rn)). startswith t ''v'')"
    unfolding T by (simp add: strip_def isspace_def startswith_def)
  from keywords_least_tag [of ?kw ?rn "''0123abc''" "''v''"] h
  have "\<exists>ref \<in> keyword_tags (keyword_refs (strip ?rn)).
        startswith ref ''v'' \<and>
        (\<forall>t \<in> keyword_tags (keyword_refs (strip ?rn)). startswith t ''v'' \<longrightarrow> ref \<le> t) \<and>
        git_versions_from_keywords ?kw ''v'' =
          Inr (Some \<lparr>version = Some (drop (length ''v'') ref), full = strip ''0123abc''\<rparr>)"
    by blast
  then show ?thesis
    unfolding T by (auto simp: startswith_def)
qed

text \<open>
  C10, as amended. Where the refnames value, once the white space around it is removed,
  begins with the marker \<open>$Format\<close>, the keyword resolver returns the empty result, and
  \<open>get_versions\<close> with such a \<open>git_refnames\<close> goes on to the rest of the chain: the
  default when the path of the file is not known, else the VCS resolver (whose
  exception, if any, leaves \<open>get_versions\<close>), then the parent directory, then the default.
\<close>

theorem unexpanded_keywords_defer:
  "(keywords ''refnames'' = Some rn \<and> startswith (strip rn) ''$Format'' \<longrightarrow>
      git_versions_from_keywords keywords tag_prefix = Inr None) \<and>
   (startswith (strip (cfg_git_refnames cfg)) ''$Format'' \<longrightarrow>
      get_versions cfg os default_ver =
        (case path_realpath_file os of
           None \<Rightarrow> Inr default_ver
         | Some p \<Rightarrow>
             (case git_versions_from_vcs os (cfg_tag_prefix cfg) (source_root cfg os p) of
                Inl e \<Rightarrow> Inl e
              | Inr (Some ver) \<Rightarrow> Inr ver
              | Inr None \<Rightarrow>
                  (case versions_from_parentdir os (cfg_parentdir_prefix cfg)
                          (source_root cfg os p) of
                     Some ver \<Rightarrow> Inr ver
                   | None \<Rightarrow> Inr default_ver))))"
proof (intro conjI impI)
  assume a: "keywords ''refnames'' = Some rn \<and> startswith (strip rn) ''$Format''"
  then have "keywords \<noteq> Map.empty" by auto
  then show "git_versions_from_keywords keywords tag_prefix = Inr None"
    using a by (simp add: git_versions_from_keywords_def)
next
  assume a: "startswith (strip (cfg_git_refnames cfg)) ''$Format''"
  let ?kw = "[''refnames'' \<mapsto> cfg_git_refnames cfg, ''full'' \<mapsto> cfg_git_full cfg]"
  have "git_versions_from_keywords ?kw (cfg_tag_prefix cfg) = Inr None"
    using a by (simp add: keywords_complete [of ?kw "cfg_git_refnames cfg" "cfg_git_full cfg"])
  then show "get_versions cfg os default_ver =
        (case path_realpath_file os of
           None \<Rightarrow> Inr default_ver
         | Some p \<Rightarrow>
             (case git_versions_from_vcs os (cfg_tag_prefix cfg) (source_root cfg os p) of
                Inl e \<Rightarrow> Inl e
              | Inr (Some ver) \<Rightarrow> Inr ver
              | Inr None \<Rightarrow>
                  (case versions_from_parentdir os (cfg_parentdir_prefix cfg)
                          (source_root cfg os p) of
                     Some ver \<Rightarrow> Inr ver
                   | None \<Rightarrow> Inr default_ver)))"
    by (simp add: get_versions_def Let_def split: option.splits sum.splits)
qed

theorem unexpanded_keywords_defer_witness:
  "startswith (strip '' $Format:%d$'') ''$Format'' \<and>
   git_versions_from_keywords [''refnames'' \<mapsto> '' $Format:%d$''] ''v'' = Inr None \<and>
   startswith (strip (cfg_git_refnames (khmer_config ''$Format:%d$'' ''$Format:%H$''))) ''$Format'' \<and>
   get_versions (khmer_config ''$Format:%d$'' ''$Format:%H$'')
       (posix_os None False (\<lambda>args. ENOENT)) \<lparr>version = Some ''0+unknown'', full = []\<rparr>
     = Inr \<lparr>version = Some ''0+unknown'', full = []\<rparr>"
proof -
  have h1: "[''refnames'' \<mapsto> '' $Format:%d$''] ''refnames'' = Some '' $Format:%d$'' \<and>
            startswith (strip '' $Format:%d$'') ''$Format''"
    by (simp add: strip_def isspace_def startswith_def)
  have h2: "startswith (strip (cfg_git_refnames (khmer_config ''$Format:%d$'' ''$Format:%H$'')))
              ''$Format''"
    by (simp add: khmer_config_def strip_def isspace_def startswith_def)
  from unexpanded_keywords_defer
         [of "[''refnames'' \<mapsto> '' $Format:%d$'']" "'' $Format:%d$''" "''v''"
             "khmer_config ''$Format:%d$'' ''$Format:%H$''"
             "posix_os None False (\<lambda>args. ENOENT)"
             "\<lparr>version = Some ''0+unknown'', full = []\<rparr>"]
  show ?thesis using h1 h2 by (simp add: posix_os_def)
qed

text \<open>
  The claim as it was written fails for a refnames value that contains the marker
  elsewhere than at its start: \<open>($Format:%d$)\<close> is taken for a list of one ref name,
  without digit, and the resolver answers \<open>0+unknown\<close>; \<open>get_versions\<close> returns that and
  asks no other resolver.
\<close>

theorem unexpanded_keywords_defer_counterexample:
  "git_versions_from_keywords
       [''refnames'' \<mapsto> ''($Format:%d$)'', ''full'' \<mapsto> ''$Format:%H$''] ''v''
     = Inr (Some \<lparr>version = Some ''0+unknown'', full = ''$Format:%H$''\<rparr>) \<and>
   get_versions
       \<lparr>cfg_git_refnames = ''($Format:%d$)'', cfg_git_full = ''$Format:%H$'',
        cfg_tag_prefix = ''v'', cfg_parentdir_prefix = ''.'',
        cfg_versionfile_source = ''khmer/_version.py''\<rparr>
       (posix_os None False (\<lambda>args. ENOENT)) \<lparr>version = Some ''default'', full = []\<rparr>
     = Inr \<lparr>version = Some ''0+unknown'', full = ''$Format:%H$''\<rparr>"
proof -
  have s1: "strip ''($Format:%d$)'' = ''($Format:%d$)''" "strip ''$Format:%H$'' = ''$Format:%H$''"
    by (simp_all add: strip_def isspace_def)
  have T: "sorted_list_of_set (keyword_tags (keyword_refs ''($Format:%d$)'')) = []"
    by code_simp
  have k: "git_versions_from_keywords
       [''refnames'' \<mapsto> ''($Format:%d$)'', ''full'' \<mapsto> ''$Format:%H$''] ''v''
     = Inr (Some \<lparr>version = Some ''0+unknown'', full = ''$Format:%H$''\<rparr>)"
    by (simp add: keywords_complete [of _ "''($Format:%d$)''" "''$Format:%H$''"] s1 T
        startswith_def)
  show ?thesis using k by (simp add: get_versions_def)
qed

text \<open>
  C5 fails on the code. A record with a refnames entry and no full entry, as
  \<open>git_get_keywords\<close> builds from a file in which only the \<open>git_refnames\<close> line has the
  expected form, makes the resolver raise KeyError at \<open>keywords["full"]\<close>.
\<close>

theorem keywords_partial_record_raises:
  "git_get_keywords (Some [''git_refnames = '' @ [CHR 0x22] @ ''(tag: v1.0)'' @ [CHR 0x22, CHR 0x0A],
                           ''git_full = None'' @ [CHR 0x0A]])
     = [''refnames'' \<mapsto> ''(tag: v1.0)''] \<and>
   git_versions_from_keywords [''refnames'' \<mapsto> ''(tag: v1.0)''] ''v'' = Inl (KeyError ''full'')"
proof -
  have "\<not> startswith (strip ''(tag: v1.0)'') ''$Format''"
    by (simp add: strip_def isspace_def startswith_def)
  then have "git_versions_from_keywords [''refnames'' \<mapsto> ''(tag: v1.0)''] ''v''
               = Inl (KeyError ''full'')"
    by (simp add: keywords_partial [of _ "''(tag: v1.0)''"])
  moreover have "git_get_keywords
       (Some [''git_refnames = '' @ [CHR 0x22] @ ''(tag: v1.0)'' @ [CHR 0x22, CHR 0x0A],
              ''git_full = None'' @ [CHR 0x0A]])
     = [''refnames'' \<mapsto> ''(tag: v1.0)'']"
    by (simp add: git_get_keywords_def keyword_line_def strip_def isspace_def startswith_def)
  ultimately show ?thesis by simp
qed

section \<open>The VCS resolver and \<open>get_versions\<close>\<close>

lemma parse_prefix_mismatch:
  assumes "CHR ''-'' \<in> set s" and "\<not> endswith s ''-dirty''"
    and "re_describe s = Some (full_tag, num, commit)" and "\<not> startswith full_tag tag_prefix"
  shows "git_parse_vcs_describe s tag_prefix = (None, False)"
  using assms by (simp add: parse_clean)

text \<open>
  Whatever the parser returned for the version, \<open>None\<close> included, goes into the result
  when both commands have run.
\<close>

lemma vcs_keeps_parser_version:
  assumes "path_exists os (path_join os root ''.git'')"
    and "run_command os (if sys_platform os = ''win32'' then [''git.cmd'', ''git.exe''] else [''git''])
           [''describe'', ''--tags'', ''--dirty'', ''--always'', ''--long''] root = Inr (Some out)"
    and "run_command os (if sys_platform os = ''win32'' then [''git.cmd'', ''git.exe''] else [''git''])
           [''rev-parse'', ''HEAD''] root = Inr (Some out2)"
  shows "git_versions_from_vcs os tag_prefix root =
           Inr (Some \<lparr>version = fst (git_parse_vcs_describe out tag_prefix),
                      full = strip out2 @
                        (if snd (git_parse_vcs_describe out tag_prefix) then ''.dirty'' else [])\<rparr>)"
  using assms by (simp add: git_versions_from_vcs_def Let_def split: prod.splits)

text \<open>Text of ASCII characters is decoded as it is.\<close>

lemma utf8_valid_ascii: "list_all (\<lambda>b. b \<le> 0x7F) bs \<Longrightarrow> utf8_valid bs"
  by (induction bs) auto

lemma decode_ascii: "list_all (\<lambda>c. of_char c \<le> (0x7F::nat)) s \<Longrightarrow> decode s = Inr s"
  by (simp add: decode_def utf8_valid_ascii list_all_iff)

text \<open>
  C3 fails on the code. For a describe output of the pattern's shape whose tag does not
  start with the prefix the parser returns \<open>None\<close> for the version, but
  \<open>git_versions_from_vcs\<close> does not look at it: it returns the dictionary with the
  version \<open>None\<close> and the full id, a non-empty result, which \<open>get_versions\<close> returns
  without asking the parent directory or taking the default.
\<close>

theorem vcs_prefix_mismatch_not_soft:
  "git_parse_vcs_describe ''release-1.0-3-gabc123'' ''v'' = (None, False) \<and>
   git_versions_from_vcs
       (posix_os (Some ''/src/khmer/khmer/_version.py'') True
          (example_git ''release-1.0-3-gabc123'' ''abc123def456''))
       ''v'' ''/src/khmer''
     = Inr (Some \<lparr>version = None, full = ''abc123def456''\<rparr>) \<and>
   get_versions (khmer_config ''$Format:%d$'' ''$Format:%H$'')
       (posix_os (Some ''/src/khmer/khmer/_version.py'') True
          (example_git ''release-1.0-3-gabc123'' ''abc123def456''))
       \<lparr>version = Some ''0+unknown'', full = []\<rparr>
     = Inr \<lparr>version = None, full = ''abc123def456''\<rparr>"
proof -
  let ?os = "posix_os (Some ''/src/khmer/khmer/_version.py'') True
          (example_git ''release-1.0-3-gabc123'' ''abc123def456'')"
  have p: "git_parse_vcs_describe ''release-1.0-3-gabc123'' ''v'' = (None, False)"
    by (simp add: git_parse_vcs_describe_def endswith_def re_describe_def ishex_def isdigit_def
        startswith_def Let_def)
  have d1: "decode ''release-1.0-3-gabc123'' = Inr ''release-1.0-3-gabc123''"
    and d2: "decode ''abc123def456'' = Inr ''abc123def456''"
    by (simp_all add: decode_ascii)
  have r1: "run_command ?os [''git'']
              [''describe'', ''--tags'', ''--dirty'', ''--always'', ''--long''] ''/src/khmer''
            = Inr (Some ''release-1.0-3-gabc123'')"
    by (simp add: posix_os_def example_git_def strip_def isspace_def d1)
  have r2: "run_command ?os [''git''] [''rev-parse'', ''HEAD''] ''/src/khmer''
            = Inr (Some ''abc123def456'')"
    by (simp add: posix_os_def example_git_def strip_def isspace_def d2)
  have e: "path_exists ?os (path_join ?os ''/src/khmer'' ''.git'')" "sys_platform ?os = ''linux''"
    by (simp_all add: posix_os_def)
  have s3: "strip ''abc123def456'' = ''abc123def456''"
    by (simp add: strip_def isspace_def)
  have v: "git_versions_from_vcs ?os ''v'' ''/src/khmer''
             = Inr (Some \<lparr>version = None, full = ''abc123def456''\<rparr>)"
    using e r1 r2 by (simp add: vcs_keeps_parser_version [of ?os _ "''release-1.0-3-gabc123''"
          "''abc123def456''"] p s3)
  have root: "source_root (khmer_config ''$Format:%d$'' ''$Format:%H$'') ?os
                ''/src/khmer/khmer/_version.py'' = ''/src/khmer''"
    by (simp add: source_root_def khmer_config_def posix_os_def posix_dirname_def)
  have k: "git_versions_from_keywords [''refnames'' \<mapsto> ''$Format:%d$'', ''full'' \<mapsto> ''$Format:%H$'']
             ''v'' = Inr None"
    by (simp add: keywords_complete [of _ "''$Format:%d$''" "''$Format:%H$''"]
        strip_def isspace_def startswith_def)
  have f: "path_realpath_file ?os = Some ''/src/khmer/khmer/_version.py''"
    by (simp add: posix_os_def)
  have c: "cfg_git_refnames (khmer_config ''$Format:%d$'' ''$Format:%H$'') = ''$Format:%d$''"
    "cfg_git_full (khmer_config ''$Format:%d$'' ''$Format:%H$'') = ''$Format:%H$''"
    "cfg_tag_prefix (khmer_config ''$Format:%d$'' ''$Format:%H$'') = ''v''"
    by (simp_all add: khmer_config_def)
  have g: "get_versions (khmer_config ''$Format:%d$'' ''$Format:%H$'') ?os
             \<lparr>version = Some ''0+unknown'', full = []\<rparr>
           = Inr \<lparr>version = None, full = ''abc123def456''\<rparr>"
    by (simp add: get_versions_def c k f root v)
  show ?thesis using p v g by simp
qed

theorem vcs_prefix_mismatch_not_soft_witness:
  "get_versions (khmer_config ''$Format:%d$'' ''$Format:%H$'')
       (posix_os (Some ''/src/khmer/khmer/_version.py'') True
          (example_git ''release-1.0-3-gabc123'' ''abc123def456''))
       \<lparr>version = Some ''0+unknown'', full = []\<rparr>
     \<noteq> Inr \<lparr>version = Some ''0+unknown'', full = []\<rparr>"
  using vcs_prefix_mismatch_not_soft by simp

text \<open>
  Where nothing is decoded (Python 2) no command raises, and \<open>get_versions\<close> returns a
  dictionary whatever the constants and the environment are.
\<close>

lemma run_command_py2:
  "sys_version_major os < 3 \<Longrightarrow> \<exists>r. run_command os commands args cwd = Inr r"
  by (induction commands) (auto split: popen_result.splits)

lemma vcs_py2:
  assumes "sys_version_major os < 3"
  shows "\<exists>r. git_versions_from_vcs os tag_prefix root = Inr r"
proof -
  obtain r1 r2 where
    "run_command os (if sys_platform os = ''win32'' then [''git.cmd'', ''git.exe''] else [''git''])
        [''describe'', ''--tags'', ''--dirty'', ''--always'', ''--long''] root = Inr r1"
    "run_command os (if sys_platform os = ''win32'' then [''git.cmd'', ''git.exe''] else [''git''])
        [''rev-parse'', ''HEAD''] root = Inr r2"
    using run_command_py2 [OF assms] by meson
  then show ?thesis
    by (auto simp: git_versions_from_vcs_def Let_def split: option.splits prod.splits)
qed

lemma get_versions_returns_py2:
  assumes "sys_version_major os < 3"
  shows "\<exists>ver. get_versions cfg os default_ver = Inr ver"
proof -
  let ?kw = "[''refnames'' \<mapsto> cfg_git_refnames cfg, ''full'' \<mapsto> cfg_git_full cfg]"
  obtain r where r: "git_versions_from_keywords ?kw (cfg_tag_prefix cfg) = Inr r"
    using keywords_complete [of ?kw "cfg_git_refnames cfg" "cfg_git_full cfg" "cfg_tag_prefix cfg"]
    by simp
  show ?thesis
  proof (cases "path_realpath_file os")
    case None
    then show ?thesis
      unfolding get_versions_def Let_def r by (simp split: option.splits)
  next
    case (Some p)
    obtain v where "git_versions_from_vcs os (cfg_tag_prefix cfg) (source_root cfg os p) = Inr v"
      using vcs_py2 [OF assms] by blast
    with Some show ?thesis
      unfolding get_versions_def Let_def r by (simp split: option.splits)
  qed
qed

text \<open>Where every resolver gives its empty result, the default is returned.\<close>

lemma get_versions_default:
  assumes "git_versions_from_keywords
        [''refnames'' \<mapsto> cfg_git_refnames cfg, ''full'' \<mapsto> cfg_git_full cfg] (cfg_tag_prefix cfg)
      = Inr None"
    and "\<And>p. path_realpath_file os = Some p \<Longrightarrow>
         git_versions_from_vcs os (cfg_tag_prefix cfg) (source_root cfg os p) = Inr None \<and>
         versions_from_parentdir os (cfg_parentdir_prefix cfg) (source_root cfg os p) = None"
  shows "get_versions cfg os default_ver = Inr default_ver"
  using assms unfolding get_versions_def Let_def by (simp split: option.splits)

text \<open>
  C4 fails on the code. Under Python 3 \<open>run_command\<close> decodes the output of \<open>git\<close>
  outside every \<open>try\<close>: when \<open>git describe\<close> prints a tag name that is not UTF-8 (git
  does not ask ref names to be), UnicodeDecodeError leaves \<open>run_command\<close>,
  \<open>git_versions_from_vcs\<close> and \<open>get_versions\<close>, which returns nothing, not even the
  default.
\<close>

theorem get_versions_decode_error:
  "decode latin1_describe_line = Inl UnicodeDecodeError \<and>
   run_command
       (posix_os (Some ''/src/khmer/khmer/_version.py'') True
          (example_git latin1_describe_line ''abc123def456''))
       [''git''] [''describe'', ''--tags'', ''--dirty'', ''--always'', ''--long''] ''/src/khmer''
     = Inl UnicodeDecodeError \<and>
   get_versions (khmer_config ''$Format:%d$'' ''$Format:%H$'')
       (posix_os (Some ''/src/khmer/khmer/_version.py'') True
          (example_git latin1_describe_line ''abc123def456''))
       \<lparr>version = Some ''0+unknown'', full = []\<rparr>
     = Inl UnicodeDecodeError"
proof -
  let ?os = "posix_os (Some ''/src/khmer/khmer/_version.py'') True
          (example_git latin1_describe_line ''abc123def456'')"
  have s1: "strip (latin1_describe_line @ [CHR 0x0A]) = latin1_describe_line"
    by (simp add: latin1_describe_line_def strip_def isspace_def)
  have d: "decode latin1_describe_line = Inl UnicodeDecodeError"
    by (simp add: latin1_describe_line_def decode_def utf8_cont_def)
  have r1: "run_command ?os [''git'']
              [''describe'', ''--tags'', ''--dirty'', ''--always'', ''--long''] ''/src/khmer''
            = Inl UnicodeDecodeError"
    by (simp add: posix_os_def example_git_def s1 d)
  have e: "path_exists ?os (path_join ?os ''/src/khmer'' ''.git'')" "sys_platform ?os = ''linux''"
    by (simp_all add: posix_os_def)
  have v: "git_versions_from_vcs ?os ''v'' ''/src/khmer'' = Inl UnicodeDecodeError"
    using e r1 by (simp add: git_versions_from_vcs_def)
  have root: "source_root (khmer_config ''$Format:%d$'' ''$Format:%H$'') ?os
                ''/src/khmer/khmer/_version.py'' = ''/src/khmer''"
    by (simp add: source_root_def khmer_config_def posix_os_def posix_dirname_def)
  have k: "git_versions_from_keywords [''refnames'' \<mapsto> ''$Format:%d$'', ''full'' \<mapsto> ''$Format:%H$'']
             ''v'' = Inr None"
    by (simp add: keywords_complete [of _ "''$Format:%d$''" "''$Format:%H$''"]
        strip_def isspace_def startswith_def)
  have f: "path_realpath_file ?os = Some ''/src/khmer/khmer/_version.py''"
    by (simp add: posix_os_def)
  have c: "cfg_git_refnames (khmer_config ''$Format:%d$'' ''$Format:%H$'') = ''$Format:%d$''"
    "cfg_git_full (khmer_config ''$Format:%d$'' ''$Format:%H$'') = ''$Format:%H$''"
    "cfg_tag_prefix (khmer_config ''$Format:%d$'' ''$Format:%H$'') = ''v''"
    by (simp_all add: khmer_config_def)
  have g: "get_versions (khmer_config ''$Format:%d$'' ''$Format:%H$'') ?os
             \<lparr>version = Some ''0+unknown'', full = []\<rparr>
           = Inl UnicodeDecodeError"
    by (simp add: get_versions_def c k f root v)
  show ?thesis using d r1 g by simp
qed

theorem get_versions_decode_error_witness:
  "get_versions (khmer_config ''$Format:%d$'' ''$Format:%H$'')
       (posix_os (Some ''/src/khmer/khmer/_version.py'') True
          (example_git latin1_describe_line ''abc123def456''))
       \<lparr>version = Some ''0+unknown'', full = []\<rparr>
     \<noteq> Inr \<lparr>version = Some ''0+unknown'', full = []\<rparr>"
  using get_versions_decode_error by simp

section \<open>White space in versions\<close>

lemma isdigit_not_isspace: "isdigit c \<Longrightarrow> \<not> isspace c"
  by (auto simp: isdigit_def isspace_def)

lemma format_d_no_space: "c \<in> set (format_d n) \<Longrightarrow> \<not> isspace c"
  using format_d_digits [of n] isdigit_not_isspace by (auto simp: list_all_iff)

lemma describe_line_parts:
  "set tag \<subseteq> set (describe_line tag num hex) \<and> set hex \<subseteq> set (describe_line tag num hex)"
  by (auto simp: describe_line_def)

text \<open>
  Every character of the version comes from the describe line or is no white space:
  the parser adds only its own marks and the digits of the distance.
\<close>

lemma parse_chars:
  assumes v: "fst (git_parse_vcs_describe line p) = Some v" and c: "c \<in> set v"
  shows "c \<in> set line \<or> \<not> isspace c"
proof -
  define dirty where "dirty = endswith line ''-dirty''"
  define gd where "gd = (if dirty then take (length line - 6) line else line)"
  define sfx where "sfx = (if dirty then ''.dirty'' else [])"
  have gd: "set gd \<subseteq> set line"
    unfolding gd_def using set_take_subset [of "length line - 6" line] by auto
  have sfx: "\<And>x. x \<in> set sfx \<Longrightarrow> \<not> isspace x"
    unfolding sfx_def by (auto simp: isspace_def)
  have unf: "git_parse_vcs_describe line p =
     (if CHR ''-'' \<notin> set gd then (Some (''0+untagged.g'' @ gd @ sfx), dirty)
      else case re_describe gd of
        None \<Rightarrow> (Some (''0+unparseable'' @ sfx), dirty)
      | Some (full_tag, num, commit) \<Rightarrow>
          if \<not> startswith full_tag p then (None, dirty)
          else (Some (if int_of_digits num \<noteq> 0 \<or> dirty
                      then drop (length p) full_tag @ ''+'' @ format_d (int_of_digits num)
                           @ ''.g'' @ commit @ sfx
                      else drop (length p) full_tag), dirty))"
    unfolding git_parse_vcs_describe_def Let_def dirty_def [symmetric] gd_def [symmetric]
      sfx_def [symmetric] by (simp split: option.splits)
  show ?thesis
  proof (cases "CHR ''-'' \<notin> set gd")
    case True
    with v unf have "v = ''0+untagged.g'' @ gd @ sfx" by simp
    with c have "c \<in> set ''0+untagged.g'' \<or> c \<in> set gd \<or> c \<in> set sfx" by auto
    moreover have "c \<in> set ''0+untagged.g'' \<Longrightarrow> \<not> isspace c" by (auto simp: isspace_def)
    ultimately show ?thesis using gd sfx [of c] by blast
  next
    case False
    show ?thesis
    proof (cases "re_describe gd")
      case None
      with v unf False have "v = ''0+unparseable'' @ sfx" by simp
      with c have "c \<in> set ''0+unparseable'' \<or> c \<in> set sfx" by auto
      moreover have "c \<in> set ''0+unparseable'' \<Longrightarrow> \<not> isspace c" by (auto simp: isspace_def)
      ultimately show ?thesis using sfx [of c] by blast
    next
      case (Some m)
      obtain full_tag num commit where m: "m = (full_tag, num, commit)" by (cases m) auto
      from re_describe_SomeD [OF Some [unfolded m]]
      have "gd = describe_line full_tag num commit \<or>
            gd = describe_line full_tag num commit @ [CHR 0x0A]" by simp
      then have parts: "set full_tag \<subseteq> set gd" "set commit \<subseteq> set gd"
        using describe_line_parts [of full_tag num commit] by auto
      from v unf False Some m
      have "v = drop (length p) full_tag \<or>
            v = drop (length p) full_tag @ ''+'' @ format_d (int_of_digits num)
                  @ ''.g'' @ commit @ sfx"
        by (auto split: if_splits)
      with c have "c \<in> set (drop (length p) full_tag) \<or> c \<in> set ''+'' \<or>
            c \<in> set (format_d (int_of_digits num)) \<or> c \<in> set ''.g'' \<or>
            c \<in> set commit \<or> c \<in> set sfx"
        by auto
      moreover have "set (drop (length p) full_tag) \<subseteq> set full_tag" by (rule set_drop_subset)
      moreover have "c \<in> set ''+'' \<Longrightarrow> \<not> isspace c" "c \<in> set ''.g'' \<Longrightarrow> \<not> isspace c"
        by (auto simp: isspace_def)
      ultimately show ?thesis
        using parts gd sfx [of c] format_d_no_space [of c "int_of_digits num"]
        by blast
    qed
  qed
qed

lemma keywords_version_from_tag:
  assumes "keywords ''refnames'' = Some rn"
    and "git_versions_from_keywords keywords tag_prefix = Inr (Some ver)"
  shows "version ver = Some ''0+unknown'' \<or>
         (\<exists>t \<in> keyword_tags (keyword_refs (strip rn)).
             startswith t tag_prefix \<and> version ver = Some (drop (length tag_prefix) t))"
proof -
  have ne: "keywords \<noteq> Map.empty" using assms(1) by auto
  let ?xs = "sorted_list_of_set (keyword_tags (keyword_refs (strip rn)))"
  have set_xs: "set ?xs = keyword_tags (keyword_refs (strip rn))"
    by (simp add: finite_keyword_tags finite_keyword_refs)
  show ?thesis
  proof (cases "find (\<lambda>ref. startswith ref tag_prefix) ?xs")
    case None
    with assms ne show ?thesis
      by (auto simp: git_versions_from_keywords_def Let_def split: if_splits option.splits)
  next
    case (Some ref)
    then have "ref \<in> keyword_tags (keyword_refs (strip rn))" "startswith ref tag_prefix"
      using find_SomeD [OF Some] set_xs by auto
    moreover from assms ne Some have "version ver = Some (drop (length tag_prefix) ref)"
      by (auto simp: git_versions_from_keywords_def Let_def split: if_splits option.splits)
    ultimately show ?thesis by blast
  qed
qed

text \<open>
  C6, as amended. No resolver checks the version for white space; each hands on the
  characters of the text it cuts the version from. So the version has no white space
  whenever that text has none: the describe line for the parser, the base name of the
  root after the parent-directory prefix, and for the keyword resolver the candidate
  tags that start with the tag prefix, after that prefix.
\<close>

theorem version_without_whitespace:
  "(\<not> list_ex isspace line \<and> fst (git_parse_vcs_describe line tag_prefix) = Some v \<longrightarrow>
      \<not> list_ex isspace v) \<and>
   (\<not> list_ex isspace (drop (length parentdir_prefix) (path_basename os root)) \<and>
    versions_from_parentdir os parentdir_prefix root = Some ver \<longrightarrow>
      (\<exists>v. version ver = Some v \<and> \<not> list_ex isspace v)) \<and>
   ((\<forall>t \<in> keyword_tags (keyword_refs (strip rn)).
        startswith t tag_prefix \<longrightarrow> \<not> list_ex isspace (drop (length tag_prefix) t)) \<and>
    keywords ''refnames'' = Some rn \<and>
    git_versions_from_keywords keywords tag_prefix = Inr (Some ver') \<longrightarrow>
      (\<exists>v. version ver' = Some v \<and> \<not> list_ex isspace v))"
proof (intro conjI impI)
  assume "\<not> list_ex isspace line \<and> fst (git_parse_vcs_describe line tag_prefix) = Some v"
  then show "\<not> list_ex isspace v"
    using parse_chars [of line tag_prefix v] by (auto simp: list_ex_iff)
next
  assume a: "\<not> list_ex isspace (drop (length parentdir_prefix) (path_basename os root)) \<and>
    versions_from_parentdir os parentdir_prefix root = Some ver"
  then have "version ver = Some (drop (length parentdir_prefix) (path_basename os root))"
    by (auto simp: versions_from_parentdir_def Let_def split: if_splits)
  with a show "\<exists>v. version ver = Some v \<and> \<not> list_ex isspace v" by simp
next
  assume a: "(\<forall>t \<in> keyword_tags (keyword_refs (strip rn)).
        startswith t tag_prefix \<longrightarrow> \<not> list_ex isspace (drop (length tag_prefix) t)) \<and>
    keywords ''refnames'' = Some rn \<and>
    git_versions_from_keywords keywords tag_prefix = Inr (Some ver')"
  then have a1: "keywords ''refnames'' = Some rn"
    and a2: "git_versions_from_keywords keywords tag_prefix = Inr (Some ver')"
    by simp_all
  consider "version ver' = Some ''0+unknown''"
    | t where "t \<in> keyword_tags (keyword_refs (strip rn))" "startswith t tag_prefix"
        "version ver' = Some (drop (length tag_prefix) t)"
    using keywords_version_from_tag [OF a1 a2] by blast
  then show "\<exists>v. version ver' = Some v \<and> \<not> list_ex isspace v"
  proof cases
    case 1
    then show ?thesis by (simp add: isspace_def)
  next
    case 2
    with a have "\<not> list_ex isspace (drop (length tag_prefix) t)" by blast
    with 2(3) show ?thesis by simp
  qed
qed

theorem version_without_whitespace_witness:
  "\<not> list_ex isspace ''v1.0-3-gabc123'' \<and>
   fst (git_parse_vcs_describe ''v1.0-3-gabc123'' ''v'') = Some ''1.0+3.gabc123'' \<and>
   \<not> list_ex isspace ''1.0+3.gabc123'' \<and>
   \<not> list_ex isspace
        (drop (length ''my project-'')
           (path_basename (posix_os None False (\<lambda>args. ENOENT)) ''/tmp/my project-1.2.3'')) \<and>
   versions_from_parentdir (posix_os None False (\<lambda>args. ENOENT)) ''my project-''
       ''/tmp/my project-1.2.3''
     = Some \<lparr>version = Some ''1.2.3'', full = []\<rparr> \<and>
   keyword_tags (keyword_refs (strip '' (HEAD -> master, tag: v1.0)'')) = {''v1.0''} \<and>
   startswith ''v1.0'' ''v'' \<and> \<not> list_ex isspace (drop (length ''v'') ''v1.0'') \<and>
   git_versions_from_keywords
       [''refnames'' \<mapsto> '' (HEAD -> master, tag: v1.0)'', ''full'' \<mapsto> ''0123abc''] ''v''
     = Inr (Some \<lparr>version = Some ''1.0'', full = ''0123abc''\<rparr>) \<and>
   \<not> list_ex isspace ''1.0''"
proof -
  let ?os = "posix_os None False (\<lambda>args. ENOENT)"
  let ?kw = "[''refnames'' \<mapsto> '' (HEAD -> master, tag: v1.0)'', ''full'' \<mapsto> ''0123abc'']"
  have p: "fst (git_parse_vcs_describe ''v1.0-3-gabc123'' ''v'') = Some ''1.0+3.gabc123''"
    by (simp add: git_parse_vcs_describe_def endswith_def re_describe_def ishex_def isdigit_def
        startswith_def int_of_digits_def digit_val_def format_d.simps digit_char_def Let_def)
  have l: "\<not> list_ex isspace ''v1.0-3-gabc123''" by (simp add: isspace_def)
  have b: "\<not> list_ex isspace
        (drop (length ''my project-'') (path_basename ?os ''/tmp/my project-1.2.3''))"
    by (simp add: posix_os_def posix_basename_def isspace_def)
  have d: "versions_from_parentdir ?os ''my project-'' ''/tmp/my project-1.2.3''
             = Some \<lparr>version = Some ''1.2.3'', full = []\<rparr>"
    by (simp add: versions_from_parentdir_def posix_os_def posix_basename_def startswith_def)
  have st: "strip '' (HEAD -> master, tag: v1.0)'' = ''(HEAD -> master, tag: v1.0)''"
    by (simp add: strip_def isspace_def)
  have tags: "keyword_tags (keyword_refs ''(HEAD -> master, tag: v1.0)'') = {''v1.0''}"
    by code_simp
  have T: "sorted_list_of_set (keyword_tags (keyword_refs ''(HEAD -> master, tag: v1.0)''))
             = [''v1.0'']"
    unfolding tags by simp
  have r: "\<forall>t \<in> keyword_tags (keyword_refs (strip '' (HEAD -> master, tag: v1.0)'')).
        startswith t ''v'' \<longrightarrow> \<not> list_ex isspace (drop (length ''v'') t)"
    unfolding st tags by (simp add: isspace_def)
  have k: "git_versions_from_keywords ?kw ''v''
             = Inr (Some \<lparr>version = Some ''1.0'', full = ''0123abc''\<rparr>)"
    by (simp add: keywords_complete [of _ "'' (HEAD -> master, tag: v1.0)''" "''0123abc''"] st T
        startswith_def strip_def isspace_def)
  from version_without_whitespace
         [of "''v1.0-3-gabc123''" "''v''" "''1.0+3.gabc123''" "''my project-''" ?os
             "''/tmp/my project-1.2.3''" "\<lparr>version = Some ''1.2.3'', full = []\<rparr>"
             "'' (HEAD -> master, tag: v1.0)''" ?kw
             "\<lparr>version = Some ''1.0'', full = ''0123abc''\<rparr>"]
  have "\<not> list_ex isspace ''1.0+3.gabc123'' \<and>
        (\<exists>v. Some ''1.2.3'' = Some v \<and> \<not> list_ex isspace v) \<and>
        (\<exists>v. Some ''1.0'' = Some v \<and> \<not> list_ex isspace v)"
    using p l b d r k by simp
  then show ?thesis using p l b d k st tags by (simp add: startswith_def isspace_def)
qed

text \<open>
  The claim as it was written fails: a directory \<open>myproj-1.0 (copy)\<close> gives the version
  \<open>1.0 (copy)\<close>, and a tag \<open>v1.0 beta\<close> in the refnames gives \<open>1.0 beta\<close>.
\<close>

theorem version_without_whitespace_counterexample:
  "versions_from_parentdir (posix_os None False (\<lambda>args. ENOENT)) ''myproj-''
       ''/tmp/myproj-1.0 (copy)''
     = Some \<lparr>version = Some ''1.0 (copy)'', full = []\<rparr> \<and>
   list_ex isspace ''1.0 (copy)'' \<and>
   git_versions_from_keywords
       [''refnames'' \<mapsto> ''(tag: v1.0 beta)'', ''full'' \<mapsto> ''0123abc''] ''v''
     = Inr (Some \<lparr>version = Some ''1.0 beta'', full = ''0123abc''\<rparr>) \<and>
   list_ex isspace ''1.0 beta''"
proof -
  have d: "versions_from_parentdir (posix_os None False (\<lambda>args. ENOENT)) ''myproj-''
       ''/tmp/myproj-1.0 (copy)''
     = Some \<lparr>version = Some ''1.0 (copy)'', full = []\<rparr>"
    by (simp add: versions_from_parentdir_def posix_os_def posix_basename_def startswith_def)
  have T: "sorted_list_of_set (keyword_tags (keyword_refs ''(tag: v1.0 beta)''))
             = [''v1.0 beta'']"
    by code_simp
  have k: "git_versions_from_keywords
       [''refnames'' \<mapsto> ''(tag: v1.0 beta)'', ''full'' \<mapsto> ''0123abc''] ''v''
     = Inr (Some \<lparr>version = Some ''1.0 beta'', full = ''0123abc''\<rparr>)"
    by (simp add: keywords_complete [of _ "''(tag: v1.0 beta)''" "''0123abc''"] T
        startswith_def strip_def isspace_def)
  show ?thesis using d k by (simp add: isspace_def)
qed

end
